theory Spec2Isabelle
  imports Main "HOL-Library.Sublist"
begin

section \<open>The directive language of the TCP test server (index.js)\<close>

text \<open>
  A JavaScript string is a sequence of UTF-16 code units. The texts handled here
  (request payloads, command line arguments) are modelled as \<^typ>\<open>string\<close>; a
  \<^typ>\<open>char\<close> stands for the code unit of the same value (0 to 255). Where the program
  can produce larger code units (\<open>unescape\<close>), code units are natural numbers below
  65536. The value \<open>undefined\<close> of an optional string is \<^term>\<open>None\<close>.
\<close>

subsection \<open>Constants\<close>

definition ACT_SIGN_OPEN :: string where
  "ACT_SIGN_OPEN = ''ACT[''"

definition ACT_SIGN_CLOSE :: string where
  "ACT_SIGN_CLOSE = '']''"

definition ACT_SEP :: char where
  "ACT_SEP = CHR '',''"

definition ACT_CLOSE :: string where
  "ACT_CLOSE = ''CLOSE''"

definition ACT_SEND :: string where
  "ACT_SEND = ''SEND''"

definition ACT_DATA :: string where
  "ACT_DATA = ''DATA''"

definition ACT_WAIT :: string where
  "ACT_WAIT = ''WAIT''"

definition ACT_SHUT :: string where
  "ACT_SHUT = ''SHUT''"

subsection \<open>The string methods used by \<open>parseRequest\<close>\<close>

text \<open>\<open>s.startsWith(pat)\<close>: the comparison \<open>indexOf\<close> makes at one position.\<close>

fun startsWith :: "string \<Rightarrow> string \<Rightarrow> bool" where
  "startsWith s [] = True"
| "startsWith [] (p # ps) = False"
| "startsWith (c # cs) (p # ps) = (c = p \<and> startsWith cs ps)"

text \<open>
  \<open>s.indexOf(pat)\<close>: the index of the first occurrence of \<open>pat\<close> in \<open>s\<close>, and \<open>-1\<close>
  when there is none. \<open>k\<close> is the index of the position being tried.
\<close>

fun indexOfFrom :: "string \<Rightarrow> string \<Rightarrow> int \<Rightarrow> int" where
  "indexOfFrom [] pat k = (if pat = [] then k else - 1)"
| "indexOfFrom (c # cs) pat k =
     (if startsWith (c # cs) pat then k else indexOfFrom cs pat (k + 1))"

definition js_indexOf :: "string \<Rightarrow> string \<Rightarrow> int" where
  "js_indexOf s pat = indexOfFrom s pat 0"

text \<open>\<open>s.includes(pat)\<close>: true when the search finds an occurrence.\<close>

definition js_includes :: "string \<Rightarrow> string \<Rightarrow> bool" where
  "js_includes s pat = (js_indexOf s pat \<noteq> - 1)"

text \<open>
  \<open>s.slice(start, end)\<close>: a negative index counts from the end, both indices are
  clamped to the string, and the result is empty when the start is not before the end.
\<close>

definition js_slice :: "string \<Rightarrow> int \<Rightarrow> int \<Rightarrow> string" where
  "js_slice s start fin =
     (let len = int (length s);
          lo = (if start < 0 then max (len + start) 0 else min start len);
          hi = (if fin < 0 then max (len + fin) 0 else min fin len)
      in if hi \<le> lo then [] else take (nat (hi - lo)) (drop (nat lo) s))"

text \<open>
  \<open>s.split(sep)\<close> for a separator of one character. The array it returns always has
  a first element, so it is the pair of element \<open>[0]\<close> and the list of the elements
  from \<open>[1]\<close> on.
\<close>

fun js_split :: "char \<Rightarrow> string \<Rightarrow> string \<times> string list" where
  "js_split sep [] = ([], [])"
| "js_split sep (c # cs) =
     (let (p, ps) = js_split sep cs
      in if c = sep then ([], p # ps) else (c # p, ps))"

subsection \<open>Actions and \<open>parseRequest\<close>\<close>

record action =
  cmd :: string
  param :: "string option"

text \<open>
  The body of the loop of \<open>parseRequest\<close>:
  \<open>{cmd: item.split('=')[0], param: item.split('=')[1]}\<close>. Element \<open>[1]\<close> of an
  array with one element is \<open>undefined\<close>.
\<close>

definition parseItem :: "string \<Rightarrow> action" where
  "parseItem item =
     \<lparr>cmd = fst (js_split CHR ''='' item),
      param = (case snd (js_split CHR ''='' item) of [] \<Rightarrow> None | q # _ \<Rightarrow> Some q)\<rparr>"

text \<open>
  \<open>parseRequest\<close>: \<^term>\<open>None\<close> is \<open>undefined\<close>. The empty string is falsy, so
  \<open>!request\<close> holds exactly for it.
\<close>

definition parseRequest :: "string \<Rightarrow> action list option" where
  "parseRequest request =
     (if request = [] \<or> \<not> js_includes request ACT_SIGN_OPEN
         \<or> \<not> js_includes request ACT_SIGN_CLOSE
      then None
      else
        let actStr = js_slice request
              (js_indexOf request ACT_SIGN_OPEN + int (length ACT_SIGN_OPEN))
              (js_indexOf request ACT_SIGN_CLOSE)
        in if actStr = [] then Some []
           else let actions = js_split ACT_SEP actStr
                in Some (map parseItem (fst actions # snd actions)))"

subsection \<open>The built-ins used by the action handlers\<close>

text \<open>
  \<open>unescape(string)\<close> (ECMAScript, Annex B): \<open>%uXXXX\<close> becomes the code unit
  \<open>XXXX\<close> and \<open>%XX\<close> the code unit \<open>XX\<close>; a percent sign that is not followed
  by the hexadecimal digits stays as it is.
\<close>

definition hexDigit :: "char \<Rightarrow> nat option" where
  "hexDigit c =
     (let n = (of_char c :: nat)
      in if 48 \<le> n \<and> n \<le> 57 then Some (n - 48)
         else if 65 \<le> n \<and> n \<le> 70 then Some (n - 55)
         else if 97 \<le> n \<and> n \<le> 102 then Some (n - 87)
         else None)"

fun hexValue :: "nat \<Rightarrow> string \<Rightarrow> nat option" where
  "hexValue acc [] = Some acc"
| "hexValue acc (d # ds) =
     (case hexDigit d of None \<Rightarrow> None | Some v \<Rightarrow> hexValue (16 * acc + v) ds)"

definition parseHex :: "string \<Rightarrow> nat option" where
  "parseHex ds = (if ds = [] then None else hexValue 0 ds)"

function unescape :: "string \<Rightarrow> nat list" where
  "unescape [] = []"
| "unescape (c # cs) =
     (if c = CHR ''%'' then
        (let hexDigits = (if 5 \<le> length cs \<and> hd cs = CHR ''u'' then take 4 (tl cs)
                          else if 2 \<le> length cs then take 2 cs else []);
             optionalAdvance = (if 5 \<le> length cs \<and> hd cs = CHR ''u'' then 5
                                else if 2 \<le> length cs then 2 else 0)
         in case parseHex hexDigits of
              Some n \<Rightarrow> n # unescape (drop optionalAdvance cs)
            | None \<Rightarrow> of_char c # unescape cs)
      else of_char c # unescape cs)"
  by pat_completeness auto
termination
  by (relation "measure length") auto

text \<open>
  The bytes of a string written with the default encoding of \<open>socket.write\<close>,
  UTF-8: one byte for a code unit below 128, two below 2048, three otherwise; a
  surrogate pair is one code point of four bytes, and a surrogate that is alone is
  replaced by U+FFFD.
\<close>

fun utf8_encode :: "nat list \<Rightarrow> nat list" where
  "utf8_encode [] = []"
| "utf8_encode (u # us) =
     (if u < 0x80 then u # utf8_encode us
      else if u < 0x800 then (0xC0 + u div 0x40) # (0x80 + u mod 0x40) # utf8_encode us
      else if 0xD800 \<le> u \<and> u < 0xDC00 then
        (case us of
           [] \<Rightarrow> [0xEF, 0xBF, 0xBD]
         | l # rest \<Rightarrow>
             if 0xDC00 \<le> l \<and> l < 0xE000 then
               (let cp = 0x10000 + (u - 0xD800) * 0x400 + (l - 0xDC00)
                in (0xF0 + cp div 0x40000) # (0x80 + cp div 0x1000 mod 0x40)
                   # (0x80 + cp div 0x40 mod 0x40) # (0x80 + cp mod 0x40)
                   # utf8_encode rest)
             else 0xEF # 0xBF # 0xBD # utf8_encode us)
      else if 0xDC00 \<le> u \<and> u < 0xE000 then 0xEF # 0xBF # 0xBD # utf8_encode us
      else (0xE0 + u div 0x1000) # (0x80 + u div 0x40 mod 0x40) # (0x80 + u mod 0x40)
           # utf8_encode us)"

text \<open>\<open>s.trim()\<close>: the white space and line terminators among the code units below 256.\<close>

definition isWhiteSpace :: "char \<Rightarrow> bool" where
  "isWhiteSpace c = ((of_char c :: nat) \<in> {9, 10, 11, 12, 13, 32, 160})"

definition js_trim :: "string \<Rightarrow> string" where
  "js_trim s = rev (dropWhile isWhiteSpace (rev (dropWhile isWhiteSpace s)))"

text \<open>A string is truthy when it is neither \<open>undefined\<close> nor empty.\<close>

definition truthy :: "string option \<Rightarrow> bool" where
  "truthy v = (case v of None \<Rightarrow> False | Some s \<Rightarrow> s \<noteq> [])"

subsection \<open>Sockets, promises and the environment\<close>

text \<open>
  What a run does to the world is a list of effects, in the order of the calls:
  the arguments of a call of \<open>log\<close>, the bytes handed to \<open>socket.write\<close>, a call
  of \<open>socket.end\<close>, the timer of \<open>WAIT\<close> with its parameter, a call of
  \<open>socket.server.close\<close>.
\<close>

datatype effect =
    Log "string list"
  | Write "nat list"
  | End
  | SetTimeout "string option"
  | ServerClose

datatype jserror = TypeError | RangeError | StreamError

text \<open>
  An \<open>async\<close> function returns a promise: it is fulfilled, rejected with an error,
  or never settled.
\<close>

datatype outcome = Fulfilled | Rejected jserror | Pending

text \<open>
  What the runtime answers to a request on the socket: the completion callback is
  called first, or the event \<open>'error'\<close> is emitted first, or neither ever happens.
\<close>

datatype signal = Callback | ErrorEvent | Never

text \<open>
  The environment of a run, asked by the position of the action in the list:
  the answer to the request on the socket, the result of
  \<open>crypto.randomBytes(Number(length))\<close> (the buffer, or the error it throws for
  a length that is not a number in range), and whether the callback of
  \<open>server.close\<close> is ever called.
\<close>

record env =
  signal :: "nat \<Rightarrow> signal"
  randomBytes :: "nat \<Rightarrow> string option \<Rightarrow> jserror + nat list"
  serverClosed :: "nat \<Rightarrow> bool"

text \<open>The argument of \<open>socket.write\<close>: \<open>undefined\<close>, a string or a buffer.\<close>

datatype chunk = CUndefined | CString "nat list" | CBuffer "nat list"

text \<open>A call of a method of the socket throws, or issues a request.\<close>

datatype attempt = Threw jserror | Issued effect signal

text \<open>
  \<open>socket.write(chunk, callback)\<close>: a chunk that is neither a string nor a buffer
  makes the call throw a \<open>TypeError\<close>; a string is written in UTF-8.
\<close>

definition socket_write :: "env \<Rightarrow> nat \<Rightarrow> chunk \<Rightarrow> attempt" where
  "socket_write e i ch =
     (case ch of
        CUndefined \<Rightarrow> Threw TypeError
      | CString s \<Rightarrow> Issued (Write (utf8_encode s)) (signal e i)
      | CBuffer b \<Rightarrow> Issued (Write b) (signal e i))"

definition socket_end :: "env \<Rightarrow> nat \<Rightarrow> attempt" where
  "socket_end e i = Issued End (signal e i)"

text \<open>
  \<open>promisifyCbAndError\<close>: the promise resolves when the callback is called and
  rejects when \<open>'error'\<close> is emitted before; an exception of the method inside
  the executor of the promise rejects it.
\<close>

definition promisifyCbAndError :: "attempt \<Rightarrow> effect list \<times> outcome" where
  "promisifyCbAndError a =
     (case a of
        Threw err \<Rightarrow> ([], Rejected err)
      | Issued eff sg \<Rightarrow>
          ([eff], case sg of Callback \<Rightarrow> Fulfilled
                          | ErrorEvent \<Rightarrow> Rejected StreamError
                          | Never \<Rightarrow> Pending))"

subsection \<open>The action handlers\<close>

definition act_close :: "env \<Rightarrow> nat \<Rightarrow> effect list \<times> outcome" where
  "act_close e i = promisifyCbAndError (socket_end e i)"

text \<open>\<open>data ? unescape(data) : data\<close> is the chunk that \<open>act_send\<close> writes.\<close>

definition act_send :: "env \<Rightarrow> nat \<Rightarrow> string option \<Rightarrow> effect list \<times> outcome" where
  "act_send e i data =
     promisifyCbAndError (socket_write e i
       (if truthy data then (case data of Some d \<Rightarrow> CString (unescape d) | None \<Rightarrow> CUndefined)
        else (case data of Some d \<Rightarrow> CString (map of_char d) | None \<Rightarrow> CUndefined)))"

definition act_data :: "env \<Rightarrow> nat \<Rightarrow> string option \<Rightarrow> effect list \<times> outcome" where
  "act_data e i len =
     (case randomBytes e i len of
        Inl err \<Rightarrow> ([], Rejected err)
      | Inr bytes \<Rightarrow> promisifyCbAndError (socket_write e i (CBuffer bytes)))"

definition act_wait :: "env \<Rightarrow> nat \<Rightarrow> string option \<Rightarrow> effect list \<times> outcome" where
  "act_wait e i time = ([SetTimeout time], Fulfilled)"

definition act_shut :: "env \<Rightarrow> nat \<Rightarrow> effect list \<times> outcome" where
  "act_shut e i = ([ServerClose], if serverClosed e i then Fulfilled else Pending)"

subsection \<open>\<open>METHOD_MAP\<close> and \<open>execActions\<close>\<close>

datatype handler = Act_close | Act_data | Act_send | Act_wait | Act_shut

definition METHOD_MAP_own :: "(string \<times> handler) list" where
  "METHOD_MAP_own =
     [(ACT_CLOSE, Act_close), (ACT_DATA, Act_data), (ACT_SEND, Act_send),
      (ACT_WAIT, Act_wait), (ACT_SHUT, Act_shut)]"

text \<open>
  \<open>METHOD_MAP\<close> is an object literal, so a key that is not its own is looked up
  in \<open>Object.prototype\<close>. Called with the socket and a string (or \<open>undefined\<close>),
  a method found there returns a value that is not a promise, or throws a
  \<open>TypeError\<close> (the second argument is not a function); \<open>__proto__\<close> is an object
  and not a function.
\<close>

datatype inherited = Returns | Throws | NotCallable

definition Object_prototype :: "(string \<times> inherited) list" where
  "Object_prototype =
     [(''constructor'', Returns), (''hasOwnProperty'', Returns),
      (''isPrototypeOf'', Returns), (''propertyIsEnumerable'', Returns),
      (''toLocaleString'', Returns), (''toString'', Returns), (''valueOf'', Returns),
      (''__lookupGetter__'', Returns), (''__lookupSetter__'', Returns),
      (''__defineGetter__'', Throws), (''__defineSetter__'', Throws),
      (''__proto__'', NotCallable)]"

datatype entry = Own handler | Inherited inherited | Absent

text \<open>\<open>METHOD_MAP[key]\<close>; \<^term>\<open>Absent\<close> is \<open>undefined\<close>, the only falsy entry.\<close>

definition METHOD_MAP :: "string \<Rightarrow> entry" where
  "METHOD_MAP key =
     (case map_of METHOD_MAP_own key of
        Some h \<Rightarrow> Own h
      | None \<Rightarrow> (case map_of Object_prototype key of
                   Some m \<Rightarrow> Inherited m
                 | None \<Rightarrow> Absent))"

text \<open>\<open>METHOD_MAP[item.cmd](socket, item.param)\<close>, awaited.\<close>

definition invoke :: "env \<Rightarrow> nat \<Rightarrow> entry \<Rightarrow> string option \<Rightarrow> effect list \<times> outcome" where
  "invoke e i m p =
     (case m of
        Own Act_close \<Rightarrow> act_close e i
      | Own Act_data \<Rightarrow> act_data e i p
      | Own Act_send \<Rightarrow> act_send e i p
      | Own Act_wait \<Rightarrow> act_wait e i p
      | Own Act_shut \<Rightarrow> act_shut e i
      | Inherited Returns \<Rightarrow> ([], Fulfilled)
      | Inherited Throws \<Rightarrow> ([], Rejected TypeError)
      | Inherited NotCallable \<Rightarrow> ([], Rejected TypeError)
      | Absent \<Rightarrow> ([], Rejected TypeError))"

text \<open>The two statements of the loop body after the check of the entry.\<close>

definition runAction :: "env \<Rightarrow> nat \<Rightarrow> action \<Rightarrow> effect list \<times> outcome" where
  "runAction e i item =
     (let r = invoke e i (METHOD_MAP (cmd item)) (param item)
      in (Log [''Executing action '' @ cmd item
                @ (if truthy (param item)
                   then '': '' @ js_trim (case param item of Some p \<Rightarrow> p | None \<Rightarrow> [])
                   else [])]
          # fst r, snd r))"

text \<open>
  The loop of \<open>execActions\<close> from position \<open>i\<close> of the list. A promise that is
  rejected or never settled ends the run at the \<open>await\<close>.
\<close>

fun execLoop :: "env \<Rightarrow> nat \<Rightarrow> action list \<Rightarrow> effect list \<times> outcome" where
  "execLoop e i [] = ([], Fulfilled)"
| "execLoop e i (item # rest) =
     (if METHOD_MAP (cmd item) = Absent
      then ([Log [''ERROR - Unknown action'', cmd item], End], Fulfilled)
      else (let r = runAction e i item
            in if snd r = Fulfilled
               then (let r' = execLoop e (Suc i) rest in (fst r @ fst r', snd r'))
               else r))"

definition execActions :: "env \<Rightarrow> action list \<Rightarrow> effect list \<times> outcome" where
  "execActions e actions =
     (if length actions = 0 then ([Log [''No actions defined - do nothing'']], Fulfilled)
      else execLoop e 0 actions)"

text \<open>
  An action completes when its entry of \<open>METHOD_MAP\<close> is found and the promise
  of its handler is fulfilled.
\<close>

definition completes :: "env \<Rightarrow> nat \<Rightarrow> action \<Rightarrow> bool" where
  "completes e i item =
     (METHOD_MAP (cmd item) \<noteq> Absent \<and> snd (runAction e i item) = Fulfilled)"

text \<open>
  The environment in which every request on the socket completes, the random
  buffer is empty and the listener closes.
\<close>

definition cooperative :: env where
  "cooperative =
     \<lparr>signal = (\<lambda>i. Callback), randomBytes = (\<lambda>i len. Inr []), serverClosed = (\<lambda>i. True)\<rparr>"

subsection \<open>The connection handler\<close>

text \<open>
  The fields of a socket that the handlers read and write: \<open>socket.server\<close> is
  assigned, a listener of \<open>'data'\<close> is installed, \<open>socket.dataGot\<close>.
\<close>

record socket =
  server :: bool
  dataListener :: bool
  dataGot :: bool

text \<open>
  What a handler of the connection does, in order: an effect, or a call of
  \<open>execActions\<close>, which runs on its own from there.
\<close>

datatype call = Effect effect | ExecActions "action list"

text \<open>
  The listener of \<open>'connection'\<close>. \<open>globActions\<close> is \<open>undefined\<close> or a list, and
  every list is truthy, the empty one too.
\<close>

definition on_connection :: "action list option \<Rightarrow> socket \<Rightarrow> socket \<times> call list" where
  "on_connection globActions sock =
     (let s = (if \<not> server sock then sock\<lparr>server := True\<rparr> else sock)
      in case globActions of
           Some g \<Rightarrow> (s, [Effect (Log [''Socket connected'']), ExecActions g])
         | None \<Rightarrow> (s\<lparr>dataListener := True\<rparr>, [Effect (Log [''Socket connected''])]))"

text \<open>The listener of \<open>'data'\<close>, on the text of the payload.\<close>

definition on_data :: "socket \<Rightarrow> string \<Rightarrow> socket \<times> call list" where
  "on_data sock reqStr =
     (if dataGot sock then (sock, [Effect (Log [''Socket IN:'', reqStr])])
      else
        (let s = sock\<lparr>dataGot := True\<rparr>
         in case parseRequest reqStr of
              None \<Rightarrow>
                (s, [Effect (Log [''Socket IN:'', reqStr]),
                     Effect (Log [''Request incorrect'']), Effect End])
            | Some actions \<Rightarrow>
                (s, [Effect (Log [''Socket IN:'', reqStr]), ExecActions actions])))"

text \<open>
  The events of a socket after the connection: a payload arrives, the socket is
  closed, an error with its message. A payload reaches the program only through
  a listener of \<open>'data'\<close>.
\<close>

datatype event = Data string | Closed | Error string

definition deliver :: "socket \<Rightarrow> event \<Rightarrow> socket \<times> call list" where
  "deliver sock ev =
     (case ev of
        Data d \<Rightarrow> if dataListener sock then on_data sock d else (sock, [])
      | Closed \<Rightarrow> (sock, [Effect (Log [''Socket Closed''])])
      | Error msg \<Rightarrow> (sock, [Effect (Log [''Socket Error'', msg])]))"

fun run :: "socket \<Rightarrow> event list \<Rightarrow> call list" where
  "run sock [] = []"
| "run sock (ev # evs) = (let r = deliver sock ev in snd r @ run (fst r) evs)"

definition newSocket :: socket where
  "newSocket = \<lparr>server = False, dataListener = False, dataGot = False\<rparr>"

text \<open>Everything the program does for one connection and the events that follow.\<close>

definition session :: "action list option \<Rightarrow> event list \<Rightarrow> call list" where
  "session globActions evs =
     (let r = on_connection globActions newSocket in snd r @ run (fst r) evs)"

text \<open>The directives executed among the calls, and the payloads among the events.\<close>

fun executed :: "call list \<Rightarrow> action list list" where
  "executed [] = []"
| "executed (ExecActions a # cs) = a # executed cs"
| "executed (Effect x # cs) = executed cs"

fun payloads :: "event list \<Rightarrow> string list" where
  "payloads [] = []"
| "payloads (Data d # evs) = d # payloads evs"
| "payloads (ev # evs) = payloads evs"

text \<open>The calls of the listeners of \<open>'close'\<close> and \<open>'error'\<close> for a list of events.\<close>

fun lifecycleLogs :: "event list \<Rightarrow> call list" where
  "lifecycleLogs [] = []"
| "lifecycleLogs (Data d # evs) = lifecycleLogs evs"
| "lifecycleLogs (Closed # evs) = Effect (Log [''Socket Closed'']) # lifecycleLogs evs"
| "lifecycleLogs (Error msg # evs) = Effect (Log [''Socket Error'', msg]) # lifecycleLogs evs"

subsection \<open>The promise of \<open>execActions\<close>\<close>

text \<open>
  Both callers of \<open>execActions\<close> drop the promise it returns: nothing awaits it
  and nothing catches its rejection. What happens to a rejected promise that
  nobody handles is the policy of the runtime: a warning, or an uncaught exception,
  which ends the process with its listener and all its sessions.
\<close>

datatype policy = WarnOnly | RaiseUncaught

datatype fate = Running | Exited

definition unhandled :: "policy \<Rightarrow> outcome \<Rightarrow> fate" where
  "unhandled pol out =
     (case out of
        Rejected err \<Rightarrow> (case pol of WarnOnly \<Rightarrow> Running | RaiseUncaught \<Rightarrow> Exited)
      | Fulfilled \<Rightarrow> Running
      | Pending \<Rightarrow> Running)"

text \<open>
  The calls of a session carried out in order, each directive to its end, until
  the process exits.
\<close>

fun perform :: "env \<Rightarrow> policy \<Rightarrow> call list \<Rightarrow> effect list \<times> fate" where
  "perform e pol [] = ([], Running)"
| "perform e pol (Effect x # cs) = (let r = perform e pol cs in (x # fst r, snd r))"
| "perform e pol (ExecActions actions # cs) =
     (let r = execActions e actions
      in if unhandled pol (snd r) = Exited then (fst r, Exited)
         else (let r' = perform e pol cs in (fst r @ fst r', snd r')))"

subsection \<open>The step of \<open>unescape\<close> at a percent sign\<close>

text \<open>
  The escape that \<open>unescape\<close> finds in the text after a percent sign: its code
  unit and the number of characters it takes, or none.
\<close>

definition escapeAt :: "string \<Rightarrow> (nat \<times> nat) option" where
  "escapeAt cs =
     (if 5 \<le> length cs \<and> hd cs = CHR ''u''
      then map_option (\<lambda>n. (n, 5)) (parseHex (take 4 (tl cs)))
      else if 2 \<le> length cs then map_option (\<lambda>n. (n, 2)) (parseHex (take 2 cs))
      else None)"

section \<open>Evaluation of the definitions on concrete inputs\<close>

lemmas parse_simps =
  parseRequest_def js_includes_def js_indexOf_def js_slice_def parseItem_def
  ACT_SIGN_OPEN_def ACT_SIGN_CLOSE_def ACT_SEP_def

lemmas exec_simps =
  execActions_def runAction_def invoke_def METHOD_MAP_def METHOD_MAP_own_def
  Object_prototype_def ACT_CLOSE_def ACT_DATA_def ACT_SEND_def ACT_WAIT_def ACT_SHUT_def
  act_close_def act_send_def act_data_def act_wait_def act_shut_def
  promisifyCbAndError_def socket_write_def socket_end_def truthy_def js_trim_def
  isWhiteSpace_def parseHex_def hexDigit_def cooperative_def Let_def

section \<open>Properties of the parser\<close>

lemma startsWith_prefix: "startsWith s pat \<longleftrightarrow> prefix pat s"
  by (induction s pat rule: startsWith.induct) auto

lemma indexOfFrom_found:
  "0 \<le> k \<Longrightarrow> indexOfFrom s pat k \<noteq> - 1 \<longleftrightarrow> sublist pat s"
proof (induction s arbitrary: k)
  case Nil
  then show ?case by simp
next
  case (Cons c cs)
  from Cons.prems have "0 \<le> k + 1" by simp
  from Cons.IH [OF this] Cons.prems show ?case
    by (simp add: startsWith_prefix sublist_Cons_right)
qed

lemma js_includes_sublist: "js_includes s pat \<longleftrightarrow> sublist pat s"
  by (simp add: js_includes_def js_indexOf_def indexOfFrom_found)

lemma js_split_fst: "fst (js_split sep s) = takeWhile (\<lambda>c. c \<noteq> sep) s"
  by (induction s) (auto split: prod.splits)

lemma js_split_snd:
  "snd (js_split sep s) =
     (if sep \<in> set s
      then (let r = js_split sep (tl (dropWhile (\<lambda>c. c \<noteq> sep) s)) in fst r # snd r)
      else [])"
  by (induction s) (auto split: prod.splits simp: Let_def)

lemma indexOfFrom_char:
  "c \<in> set s \<Longrightarrow> indexOfFrom s [c] k = k + int (length (takeWhile (\<lambda>x. x \<noteq> c) s))"
  by (induction s arbitrary: k) auto

lemma startsWith_append: "startsWith (pat @ rest) pat"
  by (simp add: startsWith_prefix)

lemma indexOfFrom_first:
  "\<not> sublist pat (pre @ butlast pat) \<Longrightarrow> pat \<noteq> [] \<Longrightarrow>
   indexOfFrom (pre @ pat @ rest) pat k = k + int (length pre)"
proof (induction pre arbitrary: k)
  case Nil
  then show ?case
    by (cases pat) (simp_all add: startsWith_prefix)
next
  case (Cons c cs)
  from Cons.prems(1) have no_tail: "\<not> sublist pat (cs @ butlast pat)"
    and no_prefix: "\<not> prefix pat (c # cs @ butlast pat)"
    by (simp_all add: sublist_Cons_right)
  have "\<not> prefix pat (c # cs @ pat @ rest)"
  proof
    assume "prefix pat (c # cs @ pat @ rest)"
    then have "take (length pat) (c # cs @ pat @ rest) = pat"
      by (metis append_eq_conv_conj prefix_def)
    moreover have "take (length pat) (c # cs @ pat @ rest) = take (length pat) (c # cs @ butlast pat)"
    proof -
      define xs where "xs = c # cs @ butlast pat"
      have "butlast pat @ [last pat] = pat" using Cons.prems(2) by simp
      then have "xs @ (last pat # rest) = c # cs @ pat @ rest"
        by (simp add: xs_def)
      moreover have "length pat \<le> length xs"
        by (simp add: xs_def)
      ultimately have "take (length pat) (c # cs @ pat @ rest) = take (length pat) xs"
        by (metis append_Nil2 diff_is_0_eq take_0 take_append)
      then show ?thesis by (simp only: xs_def)
    qed
    ultimately have "take (length pat) (c # cs @ butlast pat) = pat" by simp
    then have "prefix pat (c # cs @ butlast pat)"
      by (metis take_is_prefix)
    with no_prefix show False by simp
  qed
  with Cons.IH [OF no_tail Cons.prems(2), of "k + 1"] show ?case
    by (simp add: startsWith_prefix)
qed

lemma parseRequest_body:
  assumes "\<not> sublist ''ACT['' (pre @ ''ACT'')"
    and "CHR '']'' \<notin> set pre" and "CHR '']'' \<notin> set body"
  shows "parseRequest (pre @ ''ACT['' @ body @ '']'' @ post) =
           Some (if body = [] then []
                 else map parseItem (fst (js_split CHR '','' body) # snd (js_split CHR '','' body)))"
proof -
  let ?request = "pre @ ''ACT['' @ body @ '']'' @ post"
  have open_at: "js_indexOf ?request ''ACT['' = int (length pre)"
    using indexOfFrom_first [of "''ACT[''" pre "body @ '']'' @ post" 0] assms(1)
    by (simp add: js_indexOf_def)
  have "takeWhile (\<lambda>x. x \<noteq> CHR '']'') ?request = pre @ ''ACT['' @ body"
    using assms(2,3) by (simp add: takeWhile_append)
  then have close_at: "js_indexOf ?request '']'' = int (length pre) + 4 + int (length body)"
    using indexOfFrom_char [of "CHR '']''" ?request 0]
    by (simp add: js_indexOf_def)
  have "nat (int (length pre) + 4) = length pre + 4" by simp
  then have cut: "js_slice ?request (int (length pre) + 4) (int (length pre) + 4 + int (length body)) = body"
    by (simp add: js_slice_def Let_def min_def)
  have "js_includes ?request ''ACT[''"
    unfolding js_includes_sublist by (rule sublist_appendI)
  moreover have "js_includes ?request '']''"
    unfolding js_includes_sublist
    using sublist_appendI [of "'']''" "pre @ ''ACT['' @ body" post] by simp
  ultimately have "js_includes ?request ''ACT[''" "js_includes ?request '']''"
    by blast+
  with open_at close_at cut show ?thesis
    by (simp add: parseRequest_def ACT_SIGN_OPEN_def ACT_SIGN_CLOSE_def ACT_SEP_def Let_def)
qed

text \<open>
  C1. The closing marker that \<open>parseRequest\<close> uses is the first \<open>]\<close> of the whole
  payload, not the first one after the opening marker. In the payload
  \<open>[::1] ACT[SEND=x]\<close> a \<open>]\<close> comes before \<open>ACT[\<close>, the slice ends before it
  starts, and the result is the empty directive; the text between the opening
  marker and the first \<open>]\<close> after it, \<open>SEND=x\<close>, is what the same directive gives
  when nothing precedes it.
\<close>

theorem parseRequest_closing_marker_first:
  "parseRequest ''[::1] ACT[SEND=x]'' = Some []
   \<and> parseRequest ''ACT[SEND=x]'' = Some [\<lparr>cmd = ''SEND'', param = Some ''x''\<rparr>]"
  by (simp add: parse_simps)

text \<open>The two payloads carry the same directive and are parsed differently.\<close>

theorem parseRequest_closing_marker_first_witness:
  "parseRequest ''[::1] ACT[SEND=x]'' \<noteq> parseRequest ''ACT[SEND=x]''"
  using parseRequest_closing_marker_first by simp

text \<open>
  C2, as amended. In a payload whose opening marker is preceded by no \<open>]\<close> and
  whose action-list text is not empty, \<open>parseRequest\<close> returns one action for
  every token of that text, in order: its kind is the text of the token before
  the first \<open>=\<close>, and its parameter is the text between the first \<open>=\<close> and the
  second one (or the end of the token), so that what follows a second \<open>=\<close> is
  dropped. The parameter is \<open>undefined\<close>, not the empty string, when the token
  has no \<open>=\<close>.
\<close>

theorem parseRequest_fields:
  assumes "\<not> sublist ''ACT['' (pre @ ''ACT'')"
    and "CHR '']'' \<notin> set pre" and "CHR '']'' \<notin> set body" and "body \<noteq> []"
  shows "parseRequest (pre @ ''ACT['' @ body @ '']'' @ post) =
           Some (map (\<lambda>t. \<lparr>cmd = takeWhile (\<lambda>c. c \<noteq> CHR ''='') t,
                            param = (if CHR ''='' \<in> set t
                                     then Some (takeWhile (\<lambda>c. c \<noteq> CHR ''='')
                                                  (tl (dropWhile (\<lambda>c. c \<noteq> CHR ''='') t)))
                                     else None)\<rparr>)
                     (fst (js_split CHR '','' body) # snd (js_split CHR '','' body)))"
proof -
  have item: "parseItem =
      (\<lambda>t. \<lparr>cmd = takeWhile (\<lambda>c. c \<noteq> CHR ''='') t,
             param = (if CHR ''='' \<in> set t
                      then Some (takeWhile (\<lambda>c. c \<noteq> CHR ''='')
                                   (tl (dropWhile (\<lambda>c. c \<noteq> CHR ''='') t)))
                      else None)\<rparr>)"
    by (rule ext) (simp add: parseItem_def js_split_fst js_split_snd Let_def)
  from parseRequest_body [OF assms(1-3)] assms(4) show ?thesis
    by (simp only: item if_False)
qed

text \<open>
  The payload \<open>GET /ACT[SEND=a=b,SEND=,CLOSE] HTTP/1.1\<close>: the parameters are
  \<open>a\<close>, the empty string and \<open>undefined\<close>.
\<close>

theorem parseRequest_fields_witness:
  "\<not> sublist ''ACT['' (''GET /'' @ ''ACT'')
   \<and> CHR '']'' \<notin> set ''GET /'' \<and> CHR '']'' \<notin> set ''SEND=a=b,SEND=,CLOSE''
   \<and> ''SEND=a=b,SEND=,CLOSE'' \<noteq> []
   \<and> parseRequest ''GET /ACT[SEND=a=b,SEND=,CLOSE] HTTP/1.1''
       = Some [\<lparr>cmd = ''SEND'', param = Some ''a''\<rparr>, \<lparr>cmd = ''SEND'', param = Some []\<rparr>,
               \<lparr>cmd = ''CLOSE'', param = None\<rparr>]"
proof -
  have h1: "\<not> sublist ''ACT['' (''GET /'' @ ''ACT'')"
    by (simp add: sublist_Cons_right)
  have h2: "CHR '']'' \<notin> set ''GET /''" by simp
  have h3: "CHR '']'' \<notin> set ''SEND=a=b,SEND=,CLOSE''" by simp
  have h4: "''SEND=a=b,SEND=,CLOSE'' \<noteq> []" by simp
  from parseRequest_fields [OF h1 h2 h3 h4, of "'' HTTP/1.1''"] h1 h2 h3 h4 show ?thesis
    by simp
qed

text \<open>
  C2 as stated fails: the parameter of the token \<open>SEND=a=b\<close> is \<open>a\<close>, not the
  remainder \<open>a=b\<close>.
\<close>

theorem parseItem_remainder_counterexample:
  "parseRequest ''ACT[SEND=a=b]'' = Some [\<lparr>cmd = ''SEND'', param = Some ''a''\<rparr>]
   \<and> param (parseItem ''SEND=a=b'') \<noteq> Some ''a=b''"
  by (simp add: parse_simps)

section \<open>Properties of the executor\<close>

lemma execLoop_completed:
  "(\<forall>k < length actions. completes e (i + k) (actions ! k)) \<Longrightarrow>
   execLoop e i actions =
     (concat (map (\<lambda>(k, item). fst (runAction e k item)) (enumerate i actions)), Fulfilled)"
proof (induction actions arbitrary: i)
  case Nil
  then show ?case by simp
next
  case (Cons item rest)
  from Cons.prems have first: "completes e i item" by force
  have "\<forall>k < length rest. completes e (Suc i + k) (rest ! k)"
  proof (intro allI impI)
    fix k assume "k < length rest"
    then have "Suc k < length (item # rest)" by simp
    with Cons.prems have "completes e (i + Suc k) ((item # rest) ! Suc k)" by blast
    then show "completes e (Suc i + k) (rest ! k)" by simp
  qed
  from Cons.IH [OF this] first show ?case
    by (simp add: completes_def Let_def)
qed

text \<open>
  A key that \<open>METHOD_MAP\<close> does not have, own or inherited, ends the run: the
  actions before it have run, the error is logged, \<open>socket.end\<close> is called and
  nothing of the rest is executed.
\<close>

lemma execLoop_unknown:
  "(\<forall>k < length before. completes e (i + k) (before ! k)) \<Longrightarrow>
   METHOD_MAP (cmd item) = Absent \<Longrightarrow>
   execLoop e i (before @ item # rest) =
     (concat (map (\<lambda>(k, item). fst (runAction e k item)) (enumerate i before))
      @ [Log [''ERROR - Unknown action'', cmd item], End], Fulfilled)"
proof (induction before arbitrary: i)
  case Nil
  then show ?case by simp
next
  case (Cons b bs)
  from Cons.prems(1) have first: "completes e i b" by force
  have "\<forall>k < length bs. completes e (Suc i + k) (bs ! k)"
  proof (intro allI impI)
    fix k assume "k < length bs"
    then have "Suc k < length (b # bs)" by simp
    with Cons.prems(1) have "completes e (i + Suc k) ((b # bs) ! Suc k)" by blast
    then show "completes e (Suc i + k) (bs ! k)" by simp
  qed
  from Cons.IH [OF this Cons.prems(2)] first show ?case
    by (simp add: completes_def Let_def)
qed

text \<open>
  A handler whose promise is rejected or never settled ends the run at its
  \<open>await\<close>: no effect of a later action follows.
\<close>

lemma execLoop_failure:
  "(\<forall>k < length before. completes e (i + k) (before ! k)) \<Longrightarrow>
   METHOD_MAP (cmd item) \<noteq> Absent \<Longrightarrow>
   snd (runAction e (i + length before) item) \<noteq> Fulfilled \<Longrightarrow>
   execLoop e i (before @ item # rest) =
     (concat (map (\<lambda>(k, item). fst (runAction e k item)) (enumerate i before))
      @ fst (runAction e (i + length before) item),
      snd (runAction e (i + length before) item))"
proof (induction before arbitrary: i)
  case Nil
  then show ?case by (simp add: Let_def)
next
  case (Cons b bs)
  from Cons.prems(1) have first: "completes e i b" by force
  have rest: "\<forall>k < length bs. completes e (Suc i + k) (bs ! k)"
  proof (intro allI impI)
    fix k assume "k < length bs"
    then have "Suc k < length (b # bs)" by simp
    with Cons.prems(1) have "completes e (i + Suc k) ((b # bs) ! Suc k)" by blast
    then show "completes e (Suc i + k) (bs ! k)" by simp
  qed
  from Cons.prems(3) have "snd (runAction e (Suc i + length bs) item) \<noteq> Fulfilled" by simp
  from Cons.IH [OF rest Cons.prems(2) this] first show ?case
    by (simp add: completes_def Let_def)
qed

lemma METHOD_MAP_close: "METHOD_MAP c = Own Act_close \<longleftrightarrow> c = ACT_CLOSE"
  by (auto simp: METHOD_MAP_def METHOD_MAP_own_def ACT_CLOSE_def ACT_DATA_def ACT_SEND_def
      ACT_WAIT_def ACT_SHUT_def split: option.splits if_splits)

lemma invoke_End:
  "End \<in> set (fst (invoke e i m p)) \<longleftrightarrow> m = Own Act_close"
  by (cases m rule: entry.exhaust)
     (auto simp: invoke_def act_close_def act_send_def act_data_def act_wait_def act_shut_def
        promisifyCbAndError_def socket_end_def socket_write_def
        split: handler.splits inherited.splits sum.splits chunk.splits if_splits option.splits)

lemma runAction_End:
  "End \<in> set (fst (runAction e i item)) \<longleftrightarrow> cmd item = ACT_CLOSE"
  by (simp add: runAction_def Let_def invoke_End METHOD_MAP_close)

lemma invoke_last:
  "m \<noteq> Own Act_close \<Longrightarrow> fst (invoke e i m p) = [] \<or> last (fst (invoke e i m p)) \<noteq> End"
  by (cases m rule: entry.exhaust)
     (auto simp: invoke_def act_close_def act_send_def act_data_def act_wait_def act_shut_def
        promisifyCbAndError_def socket_end_def socket_write_def
        split: handler.splits inherited.splits sum.splits chunk.splits if_splits option.splits)

lemma runAction_last:
  "cmd item \<noteq> ACT_CLOSE \<Longrightarrow> last (fst (runAction e i item)) \<noteq> End"
  using invoke_last [of "METHOD_MAP (cmd item)" e i "param item"]
  by (auto simp: runAction_def Let_def METHOD_MAP_close)

lemma runAction_nonempty: "fst (runAction e i item) \<noteq> []"
  by (simp add: runAction_def Let_def)

lemma effects_End:
  "End \<in> set (concat (map (\<lambda>(k, item). fst (runAction e k item)) (enumerate i actions)))
   \<longleftrightarrow> (\<exists>item \<in> set actions. cmd item = ACT_CLOSE)"
  by (induction actions arbitrary: i) (simp_all add: runAction_End)

lemma hexDigit_u: "hexDigit CHR ''u'' = None"
  by (simp add: hexDigit_def)

lemma unescape_escape:
  assumes "hexDigit h = Some a" and "hexDigit l = Some b"
  shows "unescape (CHR ''%'' # h # l # rest) = (16 * a + b) # unescape rest"
proof -
  from assms(1) have "h \<noteq> CHR ''u''"
    using hexDigit_u by auto
  with assms show ?thesis
    by (simp add: parseHex_def)
qed

text \<open>
  C3. The check of \<open>execActions\<close> lets through a kind that is none of the five
  but names a property that \<open>METHOD_MAP\<close> inherits. For the payload
  \<open>ACT[toString,SEND=hi]\<close> no error is logged and the socket is not ended:
  \<open>toString\<close> is logged as executed, the inherited function is called in the
  place of a handler, and the action after it runs.
\<close>

theorem execActions_inherited_key:
  "map_of METHOD_MAP_own ''toString'' = None
   \<and> parseRequest ''ACT[toString,SEND=hi]''
       = Some [\<lparr>cmd = ''toString'', param = None\<rparr>, \<lparr>cmd = ''SEND'', param = Some ''hi''\<rparr>]
   \<and> execActions cooperative
        [\<lparr>cmd = ''toString'', param = None\<rparr>, \<lparr>cmd = ''SEND'', param = Some ''hi''\<rparr>]
       = ([Log [''Executing action toString''], Log [''Executing action SEND: hi''],
           Write [104, 105]], Fulfilled)"
  by (simp add: parse_simps exec_simps)

text \<open>In that run the text of \<open>SEND\<close> is written and the socket is not ended.\<close>

theorem execActions_inherited_key_witness:
  "Write [104, 105] \<in> set (fst (execActions cooperative
      [\<lparr>cmd = ''toString'', param = None\<rparr>, \<lparr>cmd = ''SEND'', param = Some ''hi''\<rparr>]))
   \<and> End \<notin> set (fst (execActions cooperative
      [\<lparr>cmd = ''toString'', param = None\<rparr>, \<lparr>cmd = ''SEND'', param = Some ''hi''\<rparr>]))"
  using execActions_inherited_key by simp

lemma invoke_no_Log: "Log args \<notin> set (fst (invoke e i m p))"
  by (cases m rule: entry.exhaust)
     (auto simp: invoke_def act_close_def act_send_def act_data_def act_wait_def act_shut_def
        promisifyCbAndError_def socket_end_def socket_write_def
        split: handler.splits inherited.splits sum.splits chunk.splits if_splits option.splits)

lemma runAction_Log:
  "Log args \<in> set (fst (runAction e i item)) \<Longrightarrow> \<exists>t. args = [''Executing action '' @ t]"
  by (auto simp: runAction_def Let_def invoke_no_Log)

lemma execLoop_failure_logs:
  "snd (execLoop e i actions) \<noteq> Fulfilled \<Longrightarrow>
   Log args \<in> set (fst (execLoop e i actions)) \<Longrightarrow>
   \<exists>t. args = [''Executing action '' @ t]"
proof (induction actions arbitrary: i)
  case Nil
  then show ?case by simp
next
  case (Cons item rest)
  show ?case
  proof (cases "METHOD_MAP (cmd item) = Absent")
    case True
    with Cons.prems show ?thesis by simp
  next
    case False
    show ?thesis
    proof (cases "snd (runAction e i item) = Fulfilled")
      case True
      with False Cons.prems have "snd (execLoop e (Suc i) rest) \<noteq> Fulfilled"
        and "Log args \<in> set (fst (runAction e i item))
             \<or> Log args \<in> set (fst (execLoop e (Suc i) rest))"
        by (simp_all add: Let_def)
      with Cons.IH show ?thesis
        using runAction_Log by blast
    next
      case failed: False
      with False Cons.prems have "Log args \<in> set (fst (runAction e i item))"
        by (simp add: Let_def)
      then show ?thesis by (rule runAction_Log)
    qed
  qed
qed

text \<open>
  C4. When the promise of a handler is rejected or never settled, the run stops
  there, with the effects of the actions before it and of the failed action and
  nothing of the rest, but \<open>execActions\<close> logs nothing about it: every line it
  has logged announces an action. For the payloads
  \<open>ACT[SEND,CLOSE]\<close> and then \<open>ACT[CLOSE]\<close> in a session, the handler of \<open>SEND\<close>
  fails, \<open>CLOSE\<close> is not executed, the only line about the directive is
  \<open>Executing action SEND\<close>, and the rejected promise is handled by nobody: where
  the runtime raises it as an uncaught exception the process exits, so the
  failure is not contained in the session.
\<close>

theorem handler_failure_unlogged_unhandled:
  "(snd (execActions e actions) \<noteq> Fulfilled \<longrightarrow>
      (\<forall>args. Log args \<in> set (fst (execActions e actions))
          \<longrightarrow> (\<exists>t. args = [''Executing action '' @ t])))
   \<and> execActions e [\<lparr>cmd = ''SEND'', param = None\<rparr>, \<lparr>cmd = ''CLOSE'', param = None\<rparr>]
       = ([Log [''Executing action SEND'']], Rejected TypeError)
   \<and> perform e RaiseUncaught (session None [Data ''ACT[SEND,CLOSE]'', Data ''ACT[CLOSE]''])
       = ([Log [''Socket connected''], Log [''Socket IN:'', ''ACT[SEND,CLOSE]''],
           Log [''Executing action SEND'']], Exited)
   \<and> ((\<forall>k < length before. completes e k (before ! k))
        \<and> METHOD_MAP (cmd item) \<noteq> Absent
        \<and> snd (runAction e (length before) item) \<noteq> Fulfilled \<longrightarrow>
        execActions e (before @ item # rest) =
          (concat (map (\<lambda>(k, item). fst (runAction e k item)) (enumerate 0 before))
           @ fst (runAction e (length before) item),
           snd (runAction e (length before) item)))"
proof -
  have "execActions e (before @ item # rest) =
          (concat (map (\<lambda>(k, item). fst (runAction e k item)) (enumerate 0 before))
           @ fst (runAction e (length before) item),
           snd (runAction e (length before) item))"
    if "\<forall>k < length before. completes e k (before ! k)"
      and "METHOD_MAP (cmd item) \<noteq> Absent"
      and "snd (runAction e (length before) item) \<noteq> Fulfilled"
    using that execLoop_failure [of before e 0 item rest]
    by (simp add: execActions_def)
  moreover
  have "\<exists>t. args = [''Executing action '' @ t]"
    if "snd (execActions e actions) \<noteq> Fulfilled"
      and "Log args \<in> set (fst (execActions e actions))" for args
    using that execLoop_failure_logs [of e 0 actions args]
    by (simp add: execActions_def split: if_splits)
  moreover have run: "execActions e [\<lparr>cmd = ''SEND'', param = None\<rparr>, \<lparr>cmd = ''CLOSE'', param = None\<rparr>]
       = ([Log [''Executing action SEND'']], Rejected TypeError)"
    by (simp add: exec_simps)
  moreover have "perform e RaiseUncaught (session None [Data ''ACT[SEND,CLOSE]'', Data ''ACT[CLOSE]''])
       = ([Log [''Socket connected''], Log [''Socket IN:'', ''ACT[SEND,CLOSE]''],
           Log [''Executing action SEND'']], Exited)"
    by (simp add: session_def on_connection_def on_data_def deliver_def newSocket_def
        parse_simps run unhandled_def Let_def)
  ultimately show ?thesis by blast
qed

text \<open>
  The same session where every request on the socket would complete, under both
  policies of the runtime.
\<close>

theorem handler_failure_unlogged_unhandled_witness:
  "snd (execActions cooperative [\<lparr>cmd = ''SEND'', param = None\<rparr>, \<lparr>cmd = ''CLOSE'', param = None\<rparr>])
     \<noteq> Fulfilled
   \<and> fst (execActions cooperative
        [\<lparr>cmd = ''SEND'', param = None\<rparr>, \<lparr>cmd = ''CLOSE'', param = None\<rparr>])
       = [Log [''Executing action SEND'']]
   \<and> snd (perform cooperative RaiseUncaught
        (session None [Data ''ACT[SEND,CLOSE]'', Data ''ACT[CLOSE]''])) = Exited
   \<and> snd (perform cooperative WarnOnly
        (session None [Data ''ACT[SEND,CLOSE]'', Data ''ACT[CLOSE]''])) = Running
   \<and> completes cooperative 0 \<lparr>cmd = ''WAIT'', param = Some ''10''\<rparr>
   \<and> METHOD_MAP ''SEND'' \<noteq> Absent
   \<and> snd (runAction cooperative 1 \<lparr>cmd = ''SEND'', param = None\<rparr>) \<noteq> Fulfilled
   \<and> execActions cooperative
        [\<lparr>cmd = ''WAIT'', param = Some ''10''\<rparr>, \<lparr>cmd = ''SEND'', param = None\<rparr>,
         \<lparr>cmd = ''CLOSE'', param = None\<rparr>]
       = ([Log [''Executing action WAIT: 10''], SetTimeout (Some ''10''),
           Log [''Executing action SEND'']], Rejected TypeError)"
  using handler_failure_unlogged_unhandled [of cooperative
      "[\<lparr>cmd = ''SEND'', param = None\<rparr>, \<lparr>cmd = ''CLOSE'', param = None\<rparr>]"
      "[\<lparr>cmd = ''WAIT'', param = Some ''10''\<rparr>]" "\<lparr>cmd = ''SEND'', param = None\<rparr>"
      "[\<lparr>cmd = ''CLOSE'', param = None\<rparr>]"]
  by (simp add: session_def on_connection_def on_data_def deliver_def newSocket_def
        parse_simps exec_simps unhandled_def completes_def)

text \<open>
  C5. A \<open>SEND\<close> without parameter hands \<open>undefined\<close> to \<open>socket.write\<close>, which
  throws: nothing is written, but the promise of \<open>act_send\<close> is rejected, and
  in the directive of the payload \<open>ACT[SEND,CLOSE]\<close> the action \<open>CLOSE\<close> is
  never executed, in every environment.
\<close>

theorem act_send_absent_parameter:
  "parseRequest ''ACT[SEND,CLOSE]''
     = Some [\<lparr>cmd = ''SEND'', param = None\<rparr>, \<lparr>cmd = ''CLOSE'', param = None\<rparr>]
   \<and> act_send e i None = ([], Rejected TypeError)
   \<and> execActions e [\<lparr>cmd = ''SEND'', param = None\<rparr>, \<lparr>cmd = ''CLOSE'', param = None\<rparr>]
       = ([Log [''Executing action SEND'']], Rejected TypeError)"
  by (simp add: parse_simps exec_simps)

text \<open>The same run where every request on the socket would complete.\<close>

theorem act_send_absent_parameter_witness:
  "snd (execActions cooperative
      [\<lparr>cmd = ''SEND'', param = None\<rparr>, \<lparr>cmd = ''CLOSE'', param = None\<rparr>]) = Rejected TypeError
   \<and> End \<notin> set (fst (execActions cooperative
      [\<lparr>cmd = ''SEND'', param = None\<rparr>, \<lparr>cmd = ''CLOSE'', param = None\<rparr>]))"
  using act_send_absent_parameter [of cooperative 0] by simp

lemma act_send_general: "fst (act_send e i (Some p)) = [Write (utf8_encode (unescape p))]"
  by (cases p) (simp_all add: act_send_def truthy_def socket_write_def promisifyCbAndError_def
      del: unescape.simps(2))

lemma hexDigit_percent: "hexDigit CHR ''%'' = None"
  by (simp add: hexDigit_def)

lemma unescape_percent:
  "unescape (CHR ''%'' # cs) =
     (case escapeAt cs of
        Some (n, k) \<Rightarrow> n # unescape (drop k cs)
      | None \<Rightarrow> 37 # unescape cs)"
  by (auto simp: escapeAt_def Let_def parseHex_def split: option.splits)

lemma unescape_plain: "c \<noteq> CHR ''%'' \<Longrightarrow> unescape (c # cs) = of_char c # unescape cs"
  by simp

lemma escapeAt_length: "escapeAt cs = Some (n, k) \<Longrightarrow> k \<le> length cs"
  by (auto simp: escapeAt_def split: if_splits)

lemma short_list:
  "length cs < 5 \<Longrightarrow>
   cs = [] \<or> (\<exists>a. cs = [a]) \<or> (\<exists>a b. cs = [a, b]) \<or> (\<exists>a b c. cs = [a, b, c])
   \<or> (\<exists>a b c d. cs = [a, b, c, d])"
  by (cases cs; cases "tl cs"; cases "tl (tl cs)"; cases "tl (tl (tl cs))";
      cases "tl (tl (tl (tl cs)))") auto

text \<open>A percent sign that follows does not change the escape found before it.\<close>

lemma escapeAt_append: "escapeAt (cs @ CHR ''%'' # q) = escapeAt cs"
proof (cases "5 \<le> length cs")
  case True
  then have "hd (cs @ CHR ''%'' # q) = hd cs"
    and "take 4 (tl (cs @ CHR ''%'' # q)) = take 4 (tl cs)"
    and "take 2 (cs @ CHR ''%'' # q) = take 2 cs"
    by (cases cs; simp)+
  with True show ?thesis by (simp add: escapeAt_def)
next
  case False
  then have "length cs < 5" by simp
  from short_list [OF this] show ?thesis
    by (auto simp: escapeAt_def parseHex_def hexDigit_percent hexDigit_u
        split: option.splits)
qed

text \<open>Decoding starts afresh at every percent sign.\<close>

lemma unescape_append_percent:
  "unescape (pre @ CHR ''%'' # q) = unescape pre @ unescape (CHR ''%'' # q)"
proof (induction "length pre" arbitrary: pre rule: less_induct)
  case less
  show ?case
  proof (cases pre)
    case Nil
    then show ?thesis by simp
  next
    case (Cons c cs)
    show ?thesis
    proof (cases "c = CHR ''%''")
      case False
      have "unescape (cs @ CHR ''%'' # q) = unescape cs @ unescape (CHR ''%'' # q)"
        by (rule less) (simp add: Cons)
      then have "unescape (c # cs @ CHR ''%'' # q) = unescape (c # cs) @ unescape (CHR ''%'' # q)"
        by (simp only: unescape_plain [OF False] append_Cons)
      with Cons show ?thesis by (simp only: append_Cons)
    next
      case True
      show ?thesis
      proof (cases "escapeAt cs")
        case None
        have "unescape (cs @ CHR ''%'' # q) = unescape cs @ unescape (CHR ''%'' # q)"
          by (rule less) (simp add: Cons)
        with None True Cons show ?thesis
          by (simp only: append_Cons unescape_percent escapeAt_append option.case)
      next
        case (Some nk)
        obtain n k where nk: "nk = (n, k)" by (cases nk)
        with Some have "k \<le> length cs" by (simp add: escapeAt_length)
        then have drop: "drop k (cs @ CHR ''%'' # q) = drop k cs @ CHR ''%'' # q" by simp
        have "unescape (drop k cs @ CHR ''%'' # q) = unescape (drop k cs) @ unescape (CHR ''%'' # q)"
          by (rule less) (simp add: Cons)
        with Some nk True Cons drop show ?thesis
          by (simp only: append_Cons unescape_percent escapeAt_append option.case prod.case)
      qed
    qed
  qed
qed

lemma utf8_encode_append:
  "u < 0x800 \<Longrightarrow> utf8_encode (xs @ u # ys) = utf8_encode xs @ utf8_encode (u # ys)"
proof (induction xs rule: utf8_encode.induct)
  case 1
  then show ?case by simp
next
  case (2 x xs)
  show ?case
  proof (cases xs)
    case Nil
    with 2 show ?thesis by auto
  next
    case (Cons l rest)
    with 2 show ?thesis by (auto simp: Let_def)
  qed
qed

text \<open>
  C6, as amended. For every present parameter of \<open>SEND\<close>, the empty one too, the
  bytes written are the UTF-8 encoding of the unescaped parameter. An escape
  \<open>%XX\<close>, wherever it stands in the parameter, is decoded to the code unit \<open>XX\<close>:
  between the bytes of what precedes it and the bytes of what follows it, it
  gives the single byte \<open>XX\<close> when \<open>XX\<close> is below \<open>80\<close>, and the two bytes of the
  UTF-8 encoding of the code unit when \<open>XX\<close> is from \<open>80\<close> to \<open>FF\<close>.
\<close>

theorem act_send_decodes_escape:
  assumes "hexDigit h = Some a" and "hexDigit l = Some b"
  shows "fst (act_send e i (Some p)) = [Write (utf8_encode (unescape p))]
         \<and> utf8_encode (unescape (pre @ CHR ''%'' # h # l # rest)) =
             utf8_encode (unescape pre)
             @ (if 16 * a + b < 0x80 then [16 * a + b]
                else [0xC0 + (16 * a + b) div 0x40, 0x80 + (16 * a + b) mod 0x40])
             @ utf8_encode (unescape rest)"
proof -
  from assms have "a < 16" and "b < 16"
    by (auto simp: hexDigit_def Let_def split: if_splits)
  then have small: "16 * a + b < 0x800" by simp
  have "unescape (pre @ CHR ''%'' # h # l # rest)
          = unescape pre @ (16 * a + b) # unescape rest"
    by (simp only: unescape_append_percent unescape_escape [OF assms])
  then have "utf8_encode (unescape (pre @ CHR ''%'' # h # l # rest))
          = utf8_encode (unescape pre) @ utf8_encode ((16 * a + b) # unescape rest)"
    by (simp only: utf8_encode_append [OF small])
  with small show ?thesis
    by (simp add: act_send_general del: unescape.simps)
qed

text \<open>
  The parameters \<open>%FF\<close>, \<open>A%0D%0A\<close> (an escape after other text and before another
  escape), the empty parameter, and a parameter with a percent sign that starts
  no escape and an escape \<open>%u20AC\<close>.
\<close>

theorem act_send_decodes_escape_witness:
  "hexDigit CHR ''F'' = Some 15
   \<and> fst (act_send cooperative 0 (Some ''%FF'')) = [Write [0xC3, 0xBF]]
   \<and> hexDigit CHR ''0'' = Some 0 \<and> hexDigit CHR ''D'' = Some 13
   \<and> fst (act_send cooperative 0 (Some ''A%0D%0A'')) = [Write [0x41, 0x0D, 0x0A]]
   \<and> fst (act_send cooperative 0 (Some [])) = [Write []]
   \<and> fst (act_send cooperative 0 (Some ''%zz%u20AC'')) = [Write [37, 122, 122, 0xE2, 0x82, 0xAC]]"
proof -
  have F: "hexDigit CHR ''F'' = Some 15" by (simp add: hexDigit_def)
  have Z: "hexDigit CHR ''0'' = Some 0" by (simp add: hexDigit_def)
  have D: "hexDigit CHR ''D'' = Some 13" by (simp add: hexDigit_def)
  show ?thesis
    using F Z D
      act_send_decodes_escape [OF F F, of cooperative 0 "''%FF''" "[]" "[]"]
      act_send_decodes_escape [OF Z D, of cooperative 0 "''A%0D%0A''" "''A''" "''%0A''"]
      act_send_decodes_escape [OF Z D, of cooperative 0 "[]" "[]" "[]"]
      act_send_decodes_escape [OF Z D, of cooperative 0 "''%zz%u20AC''" "[]" "[]"]
    by (simp add: parseHex_def hexDigit_def)
qed

text \<open>C6 as stated fails: the parameter \<open>%FF\<close> is not written as the single byte \<open>FF\<close>.\<close>

theorem act_send_percent_FF_counterexample:
  "fst (act_send cooperative 0 (Some ''%FF'')) \<noteq> [Write [0xFF]]"
  by (simp add: exec_simps)

text \<open>
  C7, as amended. When every action of a directive completes, the effects of
  \<open>execActions\<close> are the effects of the actions, one after the other, and
  nothing else: nothing is done to the socket after the last action, and a run
  whose last action is not \<open>CLOSE\<close> (or that has no action) does not finish with
  a close. The socket is ended exactly when the directive contains a \<open>CLOSE\<close>:
  a directive that contains no \<open>CLOSE\<close> leaves the connection open.
\<close>

theorem execActions_no_implicit_close:
  assumes "\<forall>k < length actions. completes e k (actions ! k)"
  shows "execActions e actions =
           (if actions = [] then [Log [''No actions defined - do nothing'']]
            else concat (map (\<lambda>(k, item). fst (runAction e k item)) (enumerate 0 actions)),
            Fulfilled)
         \<and> (End \<in> set (fst (execActions e actions))
              \<longleftrightarrow> (\<exists>item \<in> set actions. cmd item = ACT_CLOSE))
         \<and> (actions = [] \<or> cmd (last actions) \<noteq> ACT_CLOSE
              \<longrightarrow> last (fst (execActions e actions)) \<noteq> End)
         \<and> ((\<forall>item \<in> set actions. cmd item \<noteq> ACT_CLOSE)
              \<longrightarrow> End \<notin> set (fst (execActions e actions)))"
proof (cases "actions = []")
  case True
  then show ?thesis by (simp add: execActions_def)
next
  case False
  let ?effs = "concat (map (\<lambda>(k, item). fst (runAction e k item)) (enumerate 0 actions))"
  from assms have "\<forall>k < length actions. completes e (0 + k) (actions ! k)" by simp
  then have loop: "execLoop e 0 actions = (?effs, Fulfilled)"
    by (rule execLoop_completed)
  with False have run: "execActions e actions = (?effs, Fulfilled)"
    by (simp add: execActions_def)
  have closes: "End \<in> set ?effs \<longleftrightarrow> (\<exists>item \<in> set actions. cmd item = ACT_CLOSE)"
    by (rule effects_End)
  have final: "last ?effs \<noteq> End" if "cmd (last actions) \<noteq> ACT_CLOSE"
  proof -
    from False obtain front where split: "actions = front @ [last actions]"
      by (metis append_butlast_last_id)
    have "?effs = concat (map (\<lambda>(k, item). fst (runAction e k item)) (enumerate 0 front))
                  @ fst (runAction e (length front) (last actions))"
      by (subst split) (simp add: enumerate_append_eq)
    with that show ?thesis
      by (simp add: runAction_nonempty runAction_last)
  qed
  from closes have "End \<notin> set ?effs" if "\<forall>item \<in> set actions. cmd item \<noteq> ACT_CLOSE"
    using that by blast
  with False run closes final show ?thesis by simp
qed

text \<open>
  The directive \<open>SEND=hi, WAIT=10\<close> where every request completes: it contains
  no \<open>CLOSE\<close> and the socket is not ended.
\<close>

theorem execActions_no_implicit_close_witness:
  "completes cooperative 0 \<lparr>cmd = ''SEND'', param = Some ''hi''\<rparr>
   \<and> completes cooperative 1 \<lparr>cmd = ''WAIT'', param = Some ''10''\<rparr>
   \<and> execActions cooperative
        [\<lparr>cmd = ''SEND'', param = Some ''hi''\<rparr>, \<lparr>cmd = ''WAIT'', param = Some ''10''\<rparr>]
       = ([Log [''Executing action SEND: hi''], Write [104, 105],
           Log [''Executing action WAIT: 10''], SetTimeout (Some ''10'')], Fulfilled)
   \<and> End \<notin> set (fst (execActions cooperative
        [\<lparr>cmd = ''SEND'', param = Some ''hi''\<rparr>, \<lparr>cmd = ''WAIT'', param = Some ''10''\<rparr>]))"
proof -
  let ?acts = "[\<lparr>cmd = ''SEND'', param = Some ''hi''\<rparr>, \<lparr>cmd = ''WAIT'', param = Some ''10''\<rparr>]"
  have h: "\<forall>k < length ?acts. completes cooperative k (?acts ! k)"
    by (simp add: completes_def exec_simps less_Suc_eq all_conj_distrib)
  from execActions_no_implicit_close [OF h] h show ?thesis
    by (simp add: exec_simps less_Suc_eq all_conj_distrib)
qed

text \<open>
  C7 as stated fails in its last clause: every action of the directive
  \<open>CLOSE, WAIT=10\<close> completes and it does not end in \<open>CLOSE\<close>, but its run ends
  the socket, so the connection is not left open.
\<close>

theorem execActions_close_before_last_counterexample:
  "completes cooperative 0 \<lparr>cmd = ''CLOSE'', param = None\<rparr>
   \<and> completes cooperative 1 \<lparr>cmd = ''WAIT'', param = Some ''10''\<rparr>
   \<and> cmd (last [\<lparr>cmd = ''CLOSE'', param = None\<rparr>, \<lparr>cmd = ''WAIT'', param = Some ''10''\<rparr>])
       \<noteq> ACT_CLOSE
   \<and> End \<in> set (fst (execActions cooperative
        [\<lparr>cmd = ''CLOSE'', param = None\<rparr>, \<lparr>cmd = ''WAIT'', param = Some ''10''\<rparr>]))"
  by (simp add: completes_def exec_simps)

section \<open>Properties of the connection handler\<close>

lemma executed_append: "executed (xs @ ys) = executed xs @ executed ys"
  by (induction xs rule: executed.induct) simp_all

lemma executed_lifecycleLogs: "executed (lifecycleLogs evs) = []"
  by (induction evs rule: lifecycleLogs.induct) simp_all

lemma lifecycleLogs_append: "lifecycleLogs (xs @ ys) = lifecycleLogs xs @ lifecycleLogs ys"
  by (induction xs rule: lifecycleLogs.induct) simp_all

lemma run_global: "\<not> dataListener s \<Longrightarrow> run s evs = lifecycleLogs evs"
  by (induction evs) (auto simp: deliver_def split: event.splits)

lemma run_consumed: "dataGot s \<Longrightarrow> executed (run s evs) = []"
proof (induction evs)
  case Nil
  then show ?case by simp
next
  case (Cons ev evs)
  then show ?case
    by (cases ev) (simp_all add: deliver_def on_data_def executed_append)
qed

lemma run_fresh:
  "dataListener s \<Longrightarrow> \<not> dataGot s \<Longrightarrow>
   executed (run s evs) =
     (case payloads evs of
        [] \<Rightarrow> []
      | d # ds \<Rightarrow> (case parseRequest d of None \<Rightarrow> [] | Some a \<Rightarrow> [a]))"
proof (induction evs)
  case Nil
  then show ?case by simp
next
  case (Cons ev evs)
  show ?case
  proof (cases ev)
    case (Data d)
    have "executed (run (s\<lparr>dataGot := True\<rparr>) evs) = []"
      by (rule run_consumed) simp
    with Data Cons.prems show ?thesis
      by (simp add: deliver_def on_data_def executed_append Let_def split: option.splits)
  next
    case Closed
    with Cons show ?thesis by (simp add: deliver_def)
  next
    case (Error msg)
    with Cons show ?thesis by (simp add: deliver_def)
  qed
qed

text \<open>
  C8. With a global directive, a session logs the connection and executes the
  global directive, once, at the connection; after that only the closing of the
  socket and its errors are logged. No listener of \<open>'data'\<close> is installed, so a
  payload is never parsed: taking a payload out of the events of the session
  changes nothing.
\<close>

theorem global_directive_once:
  "session (Some g) evs =
     [Effect (Log [''Socket connected'']), ExecActions g] @ lifecycleLogs evs
   \<and> executed (session (Some g) evs) = [g]
   \<and> session (Some g) (pre @ Data d # post) = session (Some g) (pre @ post)"
  by (simp add: session_def on_connection_def newSocket_def run_global Let_def
      executed_lifecycleLogs executed_append lifecycleLogs_append)

text \<open>
  The global directive \<open>CLOSE\<close> and a session that receives the payload
  \<open>ACT[SEND=x]\<close>, a directive of its own.
\<close>

theorem global_directive_once_witness:
  "session (Some [\<lparr>cmd = ''CLOSE'', param = None\<rparr>]) [Data ''ACT[SEND=x]'', Closed]
     = [Effect (Log [''Socket connected'']), ExecActions [\<lparr>cmd = ''CLOSE'', param = None\<rparr>],
        Effect (Log [''Socket Closed''])]
   \<and> executed (session (Some [\<lparr>cmd = ''CLOSE'', param = None\<rparr>])
                [Data ''ACT[SEND=x]'', Closed]) = [[\<lparr>cmd = ''CLOSE'', param = None\<rparr>]]
   \<and> parseRequest ''ACT[SEND=x]'' = Some [\<lparr>cmd = ''SEND'', param = Some ''x''\<rparr>]"
  using global_directive_once [of "[\<lparr>cmd = ''CLOSE'', param = None\<rparr>]"
      "[Data ''ACT[SEND=x]'', Closed]" "[]" "''ACT[SEND=x]''" "[Closed]"]
  by (simp add: parse_simps)

text \<open>
  C9. Without a global directive, the directives that a session executes are
  at most one: the one parsed from its first payload, if that payload is a
  directive. Handling a payload sets \<open>dataGot\<close>, and once it is set a payload is
  only logged: it is not parsed, nothing is executed and the socket keeps its state.
\<close>

theorem inbound_directive_at_most_once:
  "executed (session None evs) =
     (case payloads evs of
        [] \<Rightarrow> []
      | d # ds \<Rightarrow> (case parseRequest d of None \<Rightarrow> [] | Some a \<Rightarrow> [a]))
   \<and> length (executed (session None evs)) \<le> 1
   \<and> dataGot (fst (on_data s d))
   \<and> (dataGot s \<longrightarrow> on_data s d = (s, [Effect (Log [''Socket IN:'', d])]))"
proof -
  have "executed (session None evs) =
     (case payloads evs of
        [] \<Rightarrow> []
      | d # ds \<Rightarrow> (case parseRequest d of None \<Rightarrow> [] | Some a \<Rightarrow> [a]))"
    by (simp add: session_def on_connection_def newSocket_def Let_def run_fresh)
  moreover from this have "length (executed (session None evs)) \<le> 1"
    by (simp split: list.splits option.splits)
  moreover have "dataGot (fst (on_data s d))"
    by (simp add: on_data_def Let_def split: option.splits)
  moreover have "dataGot s \<longrightarrow> on_data s d = (s, [Effect (Log [''Socket IN:'', d])])"
    by (simp add: on_data_def)
  ultimately show ?thesis by blast
qed

text \<open>
  A session that receives the payloads \<open>ACT[SEND=1]\<close> and \<open>ACT[CLOSE]\<close>, the
  second a directive too.
\<close>

theorem inbound_directive_at_most_once_witness:
  "executed (session None [Data ''ACT[SEND=1]'', Data ''ACT[CLOSE]''])
     = [[\<lparr>cmd = ''SEND'', param = Some ''1''\<rparr>]]
   \<and> parseRequest ''ACT[CLOSE]'' = Some [\<lparr>cmd = ''CLOSE'', param = None\<rparr>]
   \<and> dataGot (newSocket\<lparr>dataGot := True\<rparr>)
   \<and> on_data (newSocket\<lparr>dataGot := True\<rparr>) ''ACT[CLOSE]''
       = (newSocket\<lparr>dataGot := True\<rparr>, [Effect (Log [''Socket IN:'', ''ACT[CLOSE]''])])"
  using inbound_directive_at_most_once [of "[Data ''ACT[SEND=1]'', Data ''ACT[CLOSE]'']"
      "newSocket\<lparr>dataGot := True\<rparr>" "''ACT[CLOSE]''"]
  by (simp add: parse_simps)

text \<open>
  C10. A payload that does not contain both the opening marker \<open>ACT[\<close> and the
  closing marker \<open>]\<close> (the empty payload among them) is not a directive:
  \<open>parseRequest\<close> returns \<open>undefined\<close>, and so never the empty directive. The
  function is total, so nothing is thrown.
\<close>

theorem parseRequest_without_markers:
  "\<not> (sublist ''ACT['' request \<and> sublist '']'' request) \<Longrightarrow> parseRequest request = None"
  by (auto simp: parseRequest_def js_includes_sublist ACT_SIGN_OPEN_def ACT_SIGN_CLOSE_def)

text \<open>A payload with the opening marker only, and the empty payload.\<close>

theorem parseRequest_without_markers_witness:
  "\<not> (sublist ''ACT['' ''GET /ACT[CLOSE HTTP/1.1'' \<and> sublist '']'' ''GET /ACT[CLOSE HTTP/1.1'')
   \<and> parseRequest ''GET /ACT[CLOSE HTTP/1.1'' = None
   \<and> parseRequest [] = None \<and> parseRequest [] \<noteq> Some []"
proof -
  have h1: "\<not> (sublist ''ACT['' ''GET /ACT[CLOSE HTTP/1.1''
                \<and> sublist '']'' ''GET /ACT[CLOSE HTTP/1.1'')"
    by (simp add: sublist_Cons_right)
  have h2: "\<not> (sublist ''ACT['' ([] :: string) \<and> sublist '']'' ([] :: string))"
    by simp
  show ?thesis
    using h1 parseRequest_without_markers [OF h1] parseRequest_without_markers [OF h2]
    by simp
qed

end
